theory Spec2Isabelle
  imports Complex_Main "HOL-Library.List_Lexorder"
begin

section \<open>Python strings\<close>

text \<open>
  A Python \<open>str\<close> is a sequence of Unicode code points, and \<open>len\<close> counts code points.
  A string is therefore a list of code points (natural numbers); the lexicographic
  order of lists (\<open>HOL-Library.List_Lexorder\<close>) is Python's string comparison.
  \<open>str\<close> turns an ASCII literal into such a list. A name of the module that begins
  with an underscore (\<open>_extract_tags\<close>, \<open>_html_to_text\<close>) is written without it.
\<close>

type_synonym pystr = "nat list"

definition str :: "string \<Rightarrow> pystr" where
  "str s = map of_char s"

text \<open>
  The Unicode tables of the interpreter are not part of the repository. The functions
  below are written out on ASCII (code points below 128) and read every other code
  point from a table that is a parameter of the model: \<open>uni_space\<close> is
  \<open>str.isspace\<close> (also the class \<open>\s\<close> of \<open>re\<close>), \<open>uni_word\<close> the class \<open>\w\<close>,
  \<open>uni_lower\<close> and \<open>uni_upper\<close> the case mappings of one code point (which may
  give several code points). The one rule of \<open>str.lower\<close> that looks at the
  neighbours of a character (the Greek capital sigma) is left out.
\<close>

record unicode =
  uni_space :: "nat \<Rightarrow> bool"
  uni_word :: "nat \<Rightarrow> bool"
  uni_lower :: "nat \<Rightarrow> pystr"
  uni_upper :: "nat \<Rightarrow> pystr"

definition is_space :: "unicode \<Rightarrow> nat \<Rightarrow> bool" where
  "is_space U c =
     (if c < 128 then (9 \<le> c \<and> c \<le> 13) \<or> (28 \<le> c \<and> c \<le> 32) else uni_space U c)"

definition is_word :: "unicode \<Rightarrow> nat \<Rightarrow> bool" where
  "is_word U c =
     (if c < 128
      then (48 \<le> c \<and> c \<le> 57) \<or> (65 \<le> c \<and> c \<le> 90) \<or> c = 95 \<or> (97 \<le> c \<and> c \<le> 122)
      else uni_word U c)"

definition lower_cp :: "unicode \<Rightarrow> nat \<Rightarrow> pystr" where
  "lower_cp U c =
     (if c < 128 then (if 65 \<le> c \<and> c \<le> 90 then [c + 32] else [c]) else uni_lower U c)"

definition upper_cp :: "unicode \<Rightarrow> nat \<Rightarrow> pystr" where
  "upper_cp U c =
     (if c < 128 then (if 97 \<le> c \<and> c \<le> 122 then [c - 32] else [c]) else uni_upper U c)"

definition lower :: "unicode \<Rightarrow> pystr \<Rightarrow> pystr" where
  "lower U s = concat (map (lower_cp U) s)"

definition upper :: "unicode \<Rightarrow> pystr \<Rightarrow> pystr" where
  "upper U s = concat (map (upper_cp U) s)"

definition lstrip :: "unicode \<Rightarrow> pystr \<Rightarrow> pystr" where
  "lstrip U s = dropWhile (is_space U) s"

definition rstrip :: "unicode \<Rightarrow> pystr \<Rightarrow> pystr" where
  "rstrip U s = rev (dropWhile (is_space U) (rev s))"

definition strip :: "unicode \<Rightarrow> pystr \<Rightarrow> pystr" where
  "strip U s = rstrip U (lstrip U s)"

text \<open>\<open>s.strip(chars)\<close>: the characters of \<open>chars\<close> are removed from both ends.\<close>

definition strip_chars :: "pystr \<Rightarrow> pystr \<Rightarrow> pystr" where
  "strip_chars chars s =
     rev (dropWhile (\<lambda>c. c \<in> set chars) (rev (dropWhile (\<lambda>c. c \<in> set chars) s)))"

text \<open>\<open>s.replace(a, b)\<close> for one-character \<open>a\<close> and \<open>b\<close>.\<close>

definition replace_char :: "nat \<Rightarrow> nat \<Rightarrow> pystr \<Rightarrow> pystr" where
  "replace_char a b s = map (\<lambda>c. if c = a then b else c) s"

text \<open>
  Truth of an optional sequence (a string, a tuple): \<open>None\<close> and the empty sequence are
  false. Python's \<open>a or b\<close> is \<open>a\<close> when it is true, else \<open>b\<close>.
\<close>

fun truthy :: "'a list option \<Rightarrow> bool" where
  "truthy (Some s) = (s \<noteq> [])"
| "truthy None = False"

definition py_or :: "'a list option \<Rightarrow> 'a list option \<Rightarrow> 'a list option" where
  "py_or a b = (if truthy a then a else b)"

text \<open>\<open>a or ""\<close> and \<open>e.get(key, "")\<close>.\<close>

fun or_empty :: "pystr option \<Rightarrow> pystr" where
  "or_empty (Some s) = s"
| "or_empty None = []"

section \<open>Keyword patterns\<close>

text \<open>
  Every pattern of \<open>KEYWORD_TAGS\<close> has the shape \<open>\b(alt|...|alt)\b\<close>, where an
  alternative is a sequence of literal characters, character classes (\<open>[- ]\<close>) and
  optional items (\<open>[- ]?\<close>, \<open>s?\<close>). A pattern is kept as the list of its
  alternatives. \<open>re.search\<close> is used for its truth value only, and a backtracking
  matcher finds a match exactly when one exists: at some position that is a word
  boundary, some alternative matches up to a position that is a word boundary.
\<close>

datatype atom = Lit nat | Cls pystr | Opt atom

type_synonym pattern = "atom list list"

definition lit :: "string \<Rightarrow> atom list" where
  "lit s = map Lit (str s)"

definition dash_or_space :: atom where
  "dash_or_space = Cls (str ''- '')"

fun accepts :: "atom \<Rightarrow> nat \<Rightarrow> bool" where
  "accepts (Lit c) x = (x = c)"
| "accepts (Cls cs) x = (x \<in> set cs)"
| "accepts (Opt a) x = accepts a x"

text \<open>
  \<open>match_alt as prev rest\<close>: every way to match the atoms \<open>as\<close> at the front of
  \<open>rest\<close>, as the pairs of the last character before the end of the match and the
  text after it. \<open>prev\<close> is the character before \<open>rest\<close>.
\<close>

fun match_alt :: "atom list \<Rightarrow> nat option \<Rightarrow> pystr \<Rightarrow> (nat option \<times> pystr) list" where
  "match_alt [] prev rest = [(prev, rest)]"
| "match_alt (Opt a # as) prev rest =
     (case rest of
        [] \<Rightarrow> []
      | x # xs \<Rightarrow> if accepts a x then match_alt as (Some x) xs else []) @ match_alt as prev rest"
| "match_alt (a # as) prev rest =
     (case rest of
        [] \<Rightarrow> []
      | x # xs \<Rightarrow> if accepts a x then match_alt as (Some x) xs else [])"

text \<open>\<open>\b\<close>: exactly one of the two neighbours is a word character.\<close>

definition word_boundary :: "unicode \<Rightarrow> nat option \<Rightarrow> pystr \<Rightarrow> bool" where
  "word_boundary U prev rest =
     ((case prev of None \<Rightarrow> False | Some c \<Rightarrow> is_word U c)
      \<noteq> (case rest of [] \<Rightarrow> False | c # _ \<Rightarrow> is_word U c))"

definition match_here :: "unicode \<Rightarrow> pattern \<Rightarrow> nat option \<Rightarrow> pystr \<Rightarrow> bool" where
  "match_here U pat prev rest =
     (word_boundary U prev rest \<and>
      list_ex (\<lambda>alt. list_ex (\<lambda>(p, r). word_boundary U p r) (match_alt alt prev rest)) pat)"

fun search_from :: "unicode \<Rightarrow> pattern \<Rightarrow> nat option \<Rightarrow> pystr \<Rightarrow> bool" where
  "search_from U pat prev [] = match_here U pat prev []"
| "search_from U pat prev (x # xs) =
     (match_here U pat prev (x # xs) \<or> search_from U pat (Some x) xs)"

definition re_search :: "unicode \<Rightarrow> pattern \<Rightarrow> pystr \<Rightarrow> bool" where
  "re_search U pat s = search_from U pat None s"

definition KEYWORD_TAGS :: "(pattern \<times> pystr) list" where
  "KEYWORD_TAGS =
    [([lit ''xau'', lit ''gold''], str ''#XAU''),
     ([lit ''silver'', lit ''xag''], str ''#XAG''),
     ([lit ''dxy'', lit ''us dollar'', lit ''greenback'', lit ''usd index'', lit ''dollar index''],
      str ''#DXY''),
     ([lit ''eur/usd'', lit ''eurusd'', lit ''euro''], str ''#EURUSD''),
     ([lit ''usd/jpy'', lit ''usdjpy'', lit ''yen''], str ''#USDJPY''),
     ([lit ''gbp/usd'', lit ''gbpusd'', lit ''sterling'', lit ''pound''], str ''#GBPUSD''),
     ([lit ''wti'', lit ''brent'', lit ''crude'', lit ''oil''], str ''#OIL''),
     ([lit ''copper''], str ''#HG''),
     ([lit ''10'' @ [Opt dash_or_space] @ lit ''year'', lit ''10y'', lit ''ust10'', lit ''ust 10'',
       lit ''ten'' @ [dash_or_space] @ lit ''year'', lit ''treasury yield'',
       lit ''yield'' @ [Opt (Lit 115)]],
      str ''#UST10Y''),
     ([lit ''2'' @ [Opt dash_or_space] @ lit ''year'', lit ''2y'', lit ''ust2''], str ''#UST2Y''),
     ([lit ''cpi'', lit ''ppi'', lit ''pce'', lit ''core pce'', lit ''payrolls'', lit ''nfp'',
       lit ''unemployment''],
      str ''#DATA''),
     ([lit ''fed'', lit ''powell'', lit ''fomc'', lit ''dot plot'', lit ''hike'', lit ''cut'',
       lit ''rate decision''],
      str ''#Fed''),
     ([lit ''ecb'', lit ''lagarde'', lit ''boj'', lit ''boe'', lit ''snb'', lit ''rba'', lit ''boc''],
      str ''#CB''),
     ([lit ''risk'' @ [Opt dash_or_space] @ lit ''on'', lit ''risk'' @ [Opt dash_or_space] @ lit ''off'',
       lit ''sentiment''],
      str ''#RISK'')]"

section \<open>Tag extraction\<close>

text \<open>The second loop of \<open>_extract_tags\<close>: the first occurrence of every tag, in order.\<close>

fun ordered_loop :: "pystr set \<Rightarrow> pystr list \<Rightarrow> pystr list \<Rightarrow> pystr list" where
  "ordered_loop seen ordered [] = ordered"
| "ordered_loop seen ordered (t # ts) =
     (if t \<notin> seen then ordered_loop (insert t seen) (ordered @ [t]) ts
      else ordered_loop seen ordered ts)"

definition matched_tags :: "unicode \<Rightarrow> pystr \<Rightarrow> pystr list" where
  "matched_tags U lower_text =
     map snd (filter (\<lambda>(pat, tag). re_search U pat lower_text) KEYWORD_TAGS)"

definition extract_tags :: "unicode \<Rightarrow> pystr \<Rightarrow> pystr list" where
  "extract_tags U txt = ordered_loop {} [] (matched_tags U (lower U txt))"

section \<open>Libraries\<close>

text \<open>
  A \<open>datetime\<close> is its wall-clock reading, in microseconds since 0001-01-01 00:00, and
  its \<open>tzinfo\<close>. Python compares two aware datetimes that carry the same \<open>tzinfo\<close>
  object by their wall-clock readings, and adds a \<open>timedelta\<close> to the wall-clock
  reading.
\<close>

datatype tzinfo = UTC | NY_TZ | OtherTz nat

record datetime =
  wall :: int
  tz :: "tzinfo option"

text \<open>\<open>datetime.max\<close>, 9999-12-31 23:59:59.999999, in microseconds.\<close>

definition MAX_WALL :: int where
  "MAX_WALL = 3652059 * 86400000000 - 1"

text \<open>What \<open>e.get(key)\<close> gives for the keys \<open>parse_feed\<close> reads of a feedparser entry.\<close>

record raw_entry =
  get_published :: "pystr option"
  get_updated :: "pystr option"
  get_published_parsed :: "int list option"
  get_updated_parsed :: "int list option"
  get_title :: "pystr option"
  get_summary :: "pystr option"
  get_link :: "pystr option"

text \<open>
  The libraries the module calls are parameters of the model; \<open>None\<close> stands for a
  raised exception.
  \<^item> \<open>feedparser_parse\<close>: \<open>feedparser.parse(xml).entries\<close>;
  \<^item> \<open>dtparse_parse\<close>: \<open>dateutil.parser.parse\<close>;
  \<^item> \<open>datetime_utc\<close>: \<open>datetime(*t[:6], tzinfo=timezone.utc)\<close>;
  \<^item> \<open>astimezone_ny\<close>: \<open>dt.astimezone(NY_TZ)\<close> for an aware \<open>dt\<close>;
  \<^item> \<open>strftime\<close>: \<open>dt.strftime("%Y-%m-%d %H:%M")\<close>;
  \<^item> \<open>soup_text\<close>: the text BeautifulSoup extracts (lines 142 to 147 of
    \<open>ilive_feed.py\<close>);
  \<^item> \<open>html_unescape\<close>: \<open>html.unescape\<close>;
  \<^item> \<open>urlparse_path\<close>: \<open>urlparse(link).path\<close>.
\<close>

record libs =
  uni :: unicode
  feedparser_parse :: "pystr \<Rightarrow> raw_entry list"
  dtparse_parse :: "pystr \<Rightarrow> datetime option"
  datetime_utc :: "int list \<Rightarrow> datetime option"
  astimezone_ny :: "datetime \<Rightarrow> datetime option"
  strftime :: "datetime \<Rightarrow> pystr"
  soup_text :: "pystr \<Rightarrow> pystr"
  html_unescape :: "pystr \<Rightarrow> pystr"
  urlparse_path :: "pystr \<Rightarrow> pystr option"

datatype error = HTTPError | OtherException | OverflowError | ParserError

section \<open>Summary text\<close>

definition MAX_SUMMARY_CHARS :: nat where
  "MAX_SUMMARY_CHARS = 220"

definition ellipsis :: nat where
  "ellipsis = 8230"

definition newline :: nat where
  "newline = 10"

text \<open>
  \<open>re.sub(r"\s*\n\s*", "\n", text)\<close>: a maximal run of whitespace that holds a newline
  becomes one newline (the match starts at the front of the run and takes all of it);
  any other run stays. \<open>run\<close> is the whitespace read since the last other character.
\<close>

definition flush_nl :: "pystr \<Rightarrow> pystr" where
  "flush_nl run = (if newline \<in> set run then [newline] else run)"

fun sub_newlines :: "unicode \<Rightarrow> pystr \<Rightarrow> pystr \<Rightarrow> pystr" where
  "sub_newlines U run [] = flush_nl run"
| "sub_newlines U run (c # cs) =
     (if is_space U c then sub_newlines U (run @ [c]) cs
      else flush_nl run @ c # sub_newlines U [] cs)"

text \<open>\<open>re.sub(r"\s{2,}", " ", text)\<close>: a maximal run of two or more whitespace
  characters becomes one space.\<close>

definition flush_sp :: "pystr \<Rightarrow> pystr" where
  "flush_sp run = (if 2 \<le> length run then [32] else run)"

fun sub_spaces :: "unicode \<Rightarrow> pystr \<Rightarrow> pystr \<Rightarrow> pystr" where
  "sub_spaces U run [] = flush_sp run"
| "sub_spaces U run (c # cs) =
     (if is_space U c then sub_spaces U (run @ [c]) cs
      else flush_sp run @ c # sub_spaces U [] cs)"

text \<open>Lines 142 to 150: the text before it is cut.\<close>

definition clean_text :: "libs \<Rightarrow> pystr \<Rightarrow> pystr" where
  "clean_text L html =
     strip (uni L) (sub_spaces (uni L) []
       (sub_newlines (uni L) [] (html_unescape L (soup_text L html))))"

text \<open>Lines 151 to 153.\<close>

definition cut_summary :: "unicode \<Rightarrow> pystr \<Rightarrow> pystr" where
  "cut_summary U txt =
     (if length txt > MAX_SUMMARY_CHARS
      then rstrip U (take MAX_SUMMARY_CHARS txt) @ [ellipsis]
      else txt)"

definition html_to_text :: "libs \<Rightarrow> pystr \<Rightarrow> pystr" where
  "html_to_text L html = (if html = [] then [] else cut_summary (uni L) (clean_text L html))"

section \<open>Section tag\<close>

text \<open>\<open>(path.split("/", 1) + [""])[0]\<close>: the text before the first slash.\<close>

definition first_segment :: "pystr \<Rightarrow> pystr" where
  "first_segment path = takeWhile (\<lambda>c. c \<noteq> 47) path"

text \<open>An exception of \<open>urlparse\<close> is caught and gives \<open>None\<close>.\<close>

definition section_tag_from_url :: "libs \<Rightarrow> pystr \<Rightarrow> pystr option" where
  "section_tag_from_url L lnk =
     (case urlparse_path L lnk of
        None \<Rightarrow> None
      | Some p \<Rightarrow>
          (let path = strip_chars [47] p;
               first = first_segment path
           in if first \<noteq> [] then Some (upper (uni L) (35 # replace_char 45 95 first))
              else None))"

section \<open>Items\<close>

record item =
  title :: pystr
  link :: pystr
  published_ny :: "pystr option"
  tags :: "pystr list"
  summary :: pystr

definition to_ny :: "libs \<Rightarrow> datetime \<Rightarrow> datetime option" where
  "to_ny L dt = astimezone_ny L (if tz dt = None then dt\<lparr>tz := Some UTC\<rparr> else dt)"

definition coerce_dt :: "libs \<Rightarrow> pystr \<Rightarrow> int list option \<Rightarrow> datetime option" where
  "coerce_dt L s fallback_struct =
     (if s = [] \<and> \<not> truthy fallback_struct then None
      else case (if s \<noteq> [] then dtparse_parse L s else None) of
             Some d \<Rightarrow> Some d
           | None \<Rightarrow>
               (if truthy fallback_struct then datetime_utc L (take 6 (the fallback_struct))
                else None))"

text \<open>The body of the loop of \<open>parse_feed\<close>, for one entry.\<close>

definition parse_entry :: "libs \<Rightarrow> raw_entry \<Rightarrow> error + item" where
  "parse_entry L e =
     (let dt_raw = or_empty (py_or (py_or (get_published e) (get_updated e)) (Some []));
          dt_struct = py_or (get_published_parsed e) (get_updated_parsed e);
          ttl = strip (uni L) (or_empty (get_title e));
          smry = html_to_text L (or_empty (py_or (get_summary e) (Some [])));
          lnk = strip (uni L) (or_empty (get_link e));
          all_text = ttl @ [32] @ smry;
          tgs = extract_tags (uni L) all_text;
          sec = section_tag_from_url L lnk;
          tgs' = (if truthy sec \<and> the sec \<notin> set tgs then the sec # tgs else tgs)
      in case coerce_dt L dt_raw dt_struct of
           None \<Rightarrow>
             Inr \<lparr>title = ttl, link = lnk, published_ny = None, tags = tgs', summary = smry\<rparr>
         | Some dt \<Rightarrow>
             (case to_ny L dt of
                None \<Rightarrow> Inl OverflowError
              | Some ny \<Rightarrow>
                  Inr \<lparr>title = ttl, link = lnk, published_ny = Some (strftime L ny),
                       tags = tgs', summary = smry\<rparr>))"

fun parse_entries :: "libs \<Rightarrow> raw_entry list \<Rightarrow> error + item list" where
  "parse_entries L [] = Inr []"
| "parse_entries L (e # es) =
     (case parse_entry L e of
        Inl err \<Rightarrow> Inl err
      | Inr it \<Rightarrow> (case parse_entries L es of Inl err \<Rightarrow> Inl err | Inr its \<Rightarrow> Inr (it # its)))"

text \<open>The sort key \<open>x.published_ny or ""\<close>.\<close>

definition recency_key :: "item \<Rightarrow> pystr" where
  "recency_key x = or_empty (py_or (published_ny x) (Some []))"

text \<open>
  \<open>items.sort(key=..., reverse=True)\<close>: a stable sort that keeps the first order of
  items with equal keys, which is the stable ascending sort of the reversed list,
  reversed.
\<close>

definition sort_reverse :: "item list \<Rightarrow> item list" where
  "sort_reverse items = rev (sort_key recency_key (rev items))"

definition parse_feed :: "libs \<Rightarrow> pystr \<Rightarrow> error + item list" where
  "parse_feed L xml_text =
     (case parse_entries L (feedparser_parse L xml_text) of
        Inl err \<Rightarrow> Inl err
      | Inr items \<Rightarrow> Inr (sort_reverse items))"

section \<open>Filtering\<close>

text \<open>Truth of an optional integer: \<open>None\<close> and 0 are false.\<close>

fun truthy_int :: "int option \<Rightarrow> bool" where
  "truthy_int (Some n) = (n \<noteq> 0)"
| "truthy_int None = False"

text \<open>\<open>timedelta(hours=h)\<close> in microseconds; a \<open>timedelta\<close> holds at most 999999999 days.\<close>

definition timedelta_hours :: "int \<Rightarrow> int option" where
  "timedelta_hours h =
     (let td = h * 3600000000
      in if td < - (999999999 * 86400000000) \<or> 999999999 * 86400000000 + 86399999999 < td
         then None else Some td)"

text \<open>
  \<open>datetime.now(NY_TZ) - timedelta(hours=hours)\<close>, where \<open>now\<close> is the wall-clock reading
  in New York: the subtraction is on the wall-clock reading and fails outside the
  range of \<open>datetime\<close>.
\<close>

definition cutoff_of :: "int \<Rightarrow> int \<Rightarrow> error + int" where
  "cutoff_of now h =
     (case timedelta_hours h of
        None \<Rightarrow> Inl OverflowError
      | Some td \<Rightarrow>
          if now - td < 0 \<or> MAX_WALL < now - td then Inl OverflowError else Inr (now - td))"

text \<open>
  The list comprehension. \<open>dtparse.parse(...).replace(tzinfo=NY_TZ)\<close> and the cutoff
  carry the same \<open>tzinfo\<close> object, so \<open>>=\<close> compares the wall-clock readings.
\<close>

fun keep_recent :: "libs \<Rightarrow> int \<Rightarrow> item list \<Rightarrow> error + item list" where
  "keep_recent L cutoff [] = Inr []"
| "keep_recent L cutoff (it # its) =
     (if truthy (published_ny it)
      then (case dtparse_parse L (the (published_ny it)) of
              None \<Rightarrow> Inl ParserError
            | Some d \<Rightarrow>
                (case keep_recent L cutoff its of
                   Inl err \<Rightarrow> Inl err
                 | Inr r \<Rightarrow> Inr (if cutoff \<le> wall (d\<lparr>tz := Some NY_TZ\<rparr>) then it # r else r)))
      else keep_recent L cutoff its)"

text \<open>\<open>items[:limit]\<close>; a negative \<open>limit\<close> counts from the end.\<close>

definition slice_to :: "'a list \<Rightarrow> int \<Rightarrow> 'a list" where
  "slice_to xs n = (if 0 \<le> n then take (nat n) xs else take (nat (int (length xs) + n)) xs)"

definition filter_items :: "libs \<Rightarrow> int \<Rightarrow> item list \<Rightarrow> int option \<Rightarrow> int option \<Rightarrow> error + item list" where
  "filter_items L now items hours limit =
     (case (if truthy_int hours
            then (case cutoff_of now (the hours) of
                    Inl err \<Rightarrow> Inl err
                  | Inr cutoff \<Rightarrow> keep_recent L cutoff items)
            else Inr items) of
        Inl err \<Rightarrow> Inl err
      | Inr items' \<Rightarrow> Inr (if truthy_int limit then slice_to items' (the limit) else items'))"

section \<open>Fetching\<close>

text \<open>
  The cache file holds the JSON object \<open>_save_cache\<close> wrote; \<open>None\<close> is a file that is
  missing or unreadable. A value of the object may be \<open>null\<close>.
\<close>

record cache =
  etag :: "pystr option"
  last_modified :: "pystr option"
  fetched_at :: "pystr option"

text \<open>
  The request: the address, the two conditional headers and the timeout (the other
  headers are constants). The response: its status, the two headers read from it and
  \<open>r.text\<close>.
\<close>

record request =
  req_url :: pystr
  if_none_match :: "pystr option"
  if_modified_since :: "pystr option"
  req_timeout :: rat

record response =
  status_code :: int
  hdr_etag :: "pystr option"
  hdr_last_modified :: "pystr option"
  body :: pystr

text \<open>
  What \<open>client.get(url)\<close> does at one attempt: it returns a response, raises an
  \<open>httpx.HTTPError\<close>, or raises something else.
\<close>

datatype outcome = Response response | RaiseHTTPError | RaiseOther

text \<open>
  The world outside: the network, as the outcome of the request at every attempt;
  \<open>datetime.now(timezone.utc).isoformat()\<close>; whether the cache file can be written.
\<close>

record net =
  transport :: "request \<Rightarrow> int \<Rightarrow> outcome"
  utcnow_iso :: pystr
  write_ok :: bool

text \<open>The state the call changes: the cache file, and the sleeps it has made, in seconds.\<close>

record fstate =
  cache_file :: "cache option"
  slept :: "rat list"

definition load_cache :: "fstate \<Rightarrow> cache" where
  "load_cache st =
     (case cache_file st of
        None \<Rightarrow> \<lparr>etag = None, last_modified = None, fetched_at = None\<rparr>
      | Some c \<Rightarrow> c)"

definition save_cache :: "net \<Rightarrow> cache \<Rightarrow> fstate \<Rightarrow> fstate" where
  "save_cache N c st = (if write_ok N then st\<lparr>cache_file := Some c\<rparr> else st)"

definition sleep :: "rat \<Rightarrow> fstate \<Rightarrow> fstate" where
  "sleep secs st = st\<lparr>slept := slept st @ [secs]\<rparr>"

text \<open>\<open>r.raise_for_status()\<close> raises unless the status is a success (2xx).\<close>

definition is_success :: "int \<Rightarrow> bool" where
  "is_success code = (200 \<le> code \<and> code \<le> 299)"

text \<open>
  The loop of \<open>polite_fetch\<close> over the attempts that remain. The result is \<open>Inl\<close> for a
  raised exception, \<open>Inr None\<close> for \<open>return None\<close> and \<open>Inr (Some text)\<close> for the body.
\<close>

fun attempts :: "net \<Rightarrow> request \<Rightarrow> cache \<Rightarrow> int \<Rightarrow> rat \<Rightarrow> int list \<Rightarrow> fstate
    \<Rightarrow> (error + pystr option) \<times> fstate" where
  "attempts N req c max_retries backoff [] st = (Inr None, st)"
| "attempts N req c max_retries backoff (attempt # rest) st =
     (case transport N req attempt of
        RaiseOther \<Rightarrow> (Inl OtherException, st)
      | RaiseHTTPError \<Rightarrow>
          if attempt = max_retries then (Inl HTTPError, st)
          else attempts N req c max_retries (min (backoff * 2) 30) rest (sleep backoff st)
      | Response r \<Rightarrow>
          if status_code r = 304 then (Inr None, st)
          else if status_code r = 200 then
            (Inr (Some (body r)),
             save_cache N
               \<lparr>etag = py_or (hdr_etag r) (etag c),
                last_modified = py_or (hdr_last_modified r) (last_modified c),
                fetched_at = Some (utcnow_iso N)\<rparr> st)
          else if status_code r = 429 \<or> status_code r = 503 then
            attempts N req c max_retries (min (backoff * 2) 30) rest
              (sleep (backoff + (1 / 10) * of_int attempt) st)
          else if \<not> is_success (status_code r) then
            (if attempt = max_retries then (Inl HTTPError, st)
             else attempts N req c max_retries (min (backoff * 2) 30) rest (sleep backoff st))
          else attempts N req c max_retries backoff rest st)"

text \<open>The request \<open>polite_fetch\<close> sends: a conditional header for every true cache value.\<close>

definition request_for :: "pystr \<Rightarrow> rat \<Rightarrow> cache \<Rightarrow> request" where
  "request_for url timeout c =
     \<lparr>req_url = url,
      if_none_match = py_or (etag c) None,
      if_modified_since = py_or (last_modified c) None,
      req_timeout = timeout\<rparr>"

definition polite_fetch :: "net \<Rightarrow> pystr \<Rightarrow> int \<Rightarrow> rat \<Rightarrow> fstate
    \<Rightarrow> (error + pystr option) \<times> fstate" where
  "polite_fetch N url max_retries timeout st =
     (let c = load_cache st
      in attempts N (request_for url timeout c) c max_retries 1 [1..max_retries] st)"

section \<open>The digest\<close>

definition get_digest :: "net \<Rightarrow> libs \<Rightarrow> int \<Rightarrow> pystr \<Rightarrow> int option \<Rightarrow> int \<Rightarrow> fstate
    \<Rightarrow> (error + item list) \<times> fstate" where
  "get_digest N L now url hours limit st =
     (case polite_fetch N url 5 15 st of
        (Inl err, st') \<Rightarrow> (Inl err, st')
      | (Inr None, st') \<Rightarrow> (Inr [], st')
      | (Inr (Some xml), st') \<Rightarrow>
          (case parse_feed L xml of
             Inl err \<Rightarrow> (Inl err, st')
           | Inr items \<Rightarrow> (filter_items L now items hours (Some limit), st')))"

section \<open>An example environment\<close>

text \<open>
  A concrete environment on which the model is run: Unicode tables with nothing
  beyond ASCII, a feed of three entries, the library results for the strings of that
  feed (New York at five hours behind UTC), and networks.
\<close>

definition ascii_tables :: unicode where
  "ascii_tables =
     \<lparr>uni_space = (\<lambda>c. False), uni_word = (\<lambda>c. False),
      uni_lower = (\<lambda>c. [c]), uni_upper = (\<lambda>c. [c])\<rparr>"

definition example_entries :: "raw_entry list" where
  "example_entries =
     [\<lparr>get_published = None, get_updated = None,
       get_published_parsed = None, get_updated_parsed = None,
       get_title = Some (str ''Oil slips''),
       get_summary = None,
       get_link = Some (str ''https://investinglive.com/commodities/oil-slips'')\<rparr>,
      \<lparr>get_published = Some (str ''Tue, 27 Feb 2024 13:00:00 GMT''), get_updated = None,
       get_published_parsed = None, get_updated_parsed = None,
       get_title = Some (str ''ECB preview''),
       get_summary = Some (str ''Lagarde speaks after the rate decision.''),
       get_link = Some (str ''https://investinglive.com/central-bank/ecb-preview'')\<rparr>,
      \<lparr>get_published = Some (str ''Fri, 01 Mar 2024 14:30:00 GMT''), get_updated = None,
       get_published_parsed = None, get_updated_parsed = None,
       get_title = Some (str '' Gold rallies as Fed signals cut ''),
       get_summary = Some (str ''Bullion  up.''),
       get_link = Some (str ''https://investinglive.com/commodities/gold-rallies'')\<rparr>]"

definition example_libs :: libs where
  "example_libs =
     \<lparr>uni = ascii_tables,
      feedparser_parse = (\<lambda>xml. example_entries),
      dtparse_parse = map_of
        [(str ''Fri, 01 Mar 2024 14:30:00 GMT'', \<lparr>wall = 63844900200000000, tz = Some UTC\<rparr>),
         (str ''Tue, 27 Feb 2024 13:00:00 GMT'', \<lparr>wall = 63844635600000000, tz = Some UTC\<rparr>),
         (str ''2024-03-01 09:30'', \<lparr>wall = 63844882200000000, tz = None\<rparr>),
         (str ''2024-02-27 08:00'', \<lparr>wall = 63844617600000000, tz = None\<rparr>)],
      datetime_utc = (\<lambda>t. None),
      astimezone_ny = (\<lambda>d. Some \<lparr>wall = wall d - 18000000000, tz = Some NY_TZ\<rparr>),
      strftime = (\<lambda>d. if wall d = 63844882200000000 then str ''2024-03-01 09:30''
                      else if wall d = 63844617600000000 then str ''2024-02-27 08:00''
                      else str ''1970-01-01 00:00''),
      soup_text = (\<lambda>html. html),
      html_unescape = (\<lambda>s. s),
      urlparse_path = map_of
        [(str ''https://investinglive.com/commodities/oil-slips'', str ''/commodities/oil-slips''),
         (str ''https://investinglive.com/central-bank/ecb-preview'', str ''/central-bank/ecb-preview''),
         (str ''https://investinglive.com/commodities/gold-rallies'', str ''/commodities/gold-rallies'')]\<rparr>"

text \<open>Noon of 2024-03-01 in New York.\<close>

definition example_now :: int where
  "example_now = 63844891200000000"

definition example_items :: "item list" where
  "example_items =
     [\<lparr>title = str ''Gold rallies as Fed signals cut'',
       link = str ''https://investinglive.com/commodities/gold-rallies'',
       published_ny = Some (str ''2024-03-01 09:30''),
       tags = [str ''#COMMODITIES'', str ''#XAU'', str ''#Fed''],
       summary = str ''Bullion up.''\<rparr>,
      \<lparr>title = str ''ECB preview'',
       link = str ''https://investinglive.com/central-bank/ecb-preview'',
       published_ny = Some (str ''2024-02-27 08:00''),
       tags = [str ''#CENTRAL_BANK'', str ''#Fed'', str ''#CB''],
       summary = str ''Lagarde speaks after the rate decision.''\<rparr>,
      \<lparr>title = str ''Oil slips'',
       link = str ''https://investinglive.com/commodities/oil-slips'',
       published_ny = None,
       tags = [str ''#COMMODITIES'', str ''#OIL''],
       summary = []\<rparr>]"

text \<open>A network that answers attempt \<open>n\<close> with the status \<open>code n\<close>.\<close>

definition answering :: "(int \<Rightarrow> int) \<Rightarrow> net" where
  "answering code =
     \<lparr>transport = (\<lambda>req attempt. Response
        \<lparr>status_code = code attempt, hdr_etag = Some (str ''v2''), hdr_last_modified = None,
         body = str ''<rss/>''\<rparr>),
      utcnow_iso = str ''2024-03-01T17:00:00+00:00'',
      write_ok = True\<rparr>"

definition example_state :: fstate where
  "example_state =
     \<lparr>cache_file = Some \<lparr>etag = Some (str ''v1''), last_modified = None,
                        fetched_at = Some (str ''2024-03-01T16:00:00+00:00'')\<rparr>,
      slept = []\<rparr>"

section \<open>The fetcher\<close>

lemma cache_file_sleep: "cache_file (sleep secs st) = cache_file st"
  by (simp add: sleep_def)

text \<open>
  An attempt that neither returns nor raises out of the loop is followed by the next
  one; the first 304 after such attempts ends the call with \<open>None\<close>.
\<close>

lemma attempts_304:
  assumes "\<forall>j \<in> set pre. j \<noteq> mr \<and> transport N req j \<noteq> RaiseOther \<and>
             (\<forall>r'. transport N req j = Response r' \<longrightarrow> status_code r' \<noteq> 200 \<and> status_code r' \<noteq> 304)"
    and "transport N req k = Response r" and "status_code r = 304"
  shows "\<exists>st'. attempts N req c mr b (pre @ k # post) st = (Inr None, st') \<and>
           cache_file st' = cache_file st"
  using assms(1)
proof (induction pre arbitrary: b st)
  case Nil
  from assms(2,3) show ?case by simp
next
  case (Cons j pre)
  then have j: "j \<noteq> mr" "transport N req j \<noteq> RaiseOther"
    and pre: "\<forall>j \<in> set pre. j \<noteq> mr \<and> transport N req j \<noteq> RaiseOther \<and>
             (\<forall>r'. transport N req j = Response r' \<longrightarrow> status_code r' \<noteq> 200 \<and> status_code r' \<noteq> 304)"
    by simp_all
  have next_attempt: "\<exists>st'. attempts N req c mr b' (pre @ k # post) (sleep secs st) = (Inr None, st') \<and>
      cache_file st' = cache_file st" for b' secs
    using Cons.IH [OF pre, of b' "sleep secs st"] by (simp add: cache_file_sleep)
  show ?case
  proof (cases "transport N req j")
    case (Response r')
    with Cons.prems have "status_code r' \<noteq> 200" "status_code r' \<noteq> 304" by simp_all
    with Response j next_attempt Cons.IH [OF pre, of b st] show ?thesis
      by simp
  next
    case RaiseHTTPError
    with j next_attempt show ?thesis
      by simp
  next
    case RaiseOther
    with j show ?thesis by simp
  qed
qed

text \<open>
  C9. When the response to the fetch is a 304, at the first attempt or after attempts
  that were retried, \<open>polite_fetch\<close> returns \<open>None\<close> (no change, no body) and the cache
  file is what it was; when the 304 answers the first attempt the whole state is what
  it was (no sleep either).
\<close>

theorem polite_fetch_304_cache_untouched:
  assumes "1 \<le> k" and "k \<le> max_retries"
    and "\<forall>j \<in> {1..<k}.
           transport N (request_for url timeout (load_cache st)) j \<noteq> RaiseOther \<and>
           (\<forall>r'. transport N (request_for url timeout (load_cache st)) j = Response r'
              \<longrightarrow> status_code r' \<noteq> 200 \<and> status_code r' \<noteq> 304)"
    and "transport N (request_for url timeout (load_cache st)) k = Response r"
    and "status_code r = 304"
  shows "fst (polite_fetch N url max_retries timeout st) = Inr None \<and>
         cache_file (snd (polite_fetch N url max_retries timeout st)) = cache_file st \<and>
         (k = 1 \<longrightarrow> snd (polite_fetch N url max_retries timeout st) = st)"
proof -
  let ?req = "request_for url timeout (load_cache st)"
  have split: "[1..max_retries] = [1..k - 1] @ k # [k + 1..max_retries]"
    using assms(1,2) by (rule upto_split3)
  have pre: "\<forall>j \<in> set [1..k - 1]. j \<noteq> max_retries \<and> transport N ?req j \<noteq> RaiseOther \<and>
      (\<forall>r'. transport N ?req j = Response r' \<longrightarrow> status_code r' \<noteq> 200 \<and> status_code r' \<noteq> 304)"
    using assms(2,3) by auto
  from attempts_304 [OF pre assms(4,5)]
  obtain st' where st': "attempts N ?req (load_cache st) max_retries 1
        ([1..k - 1] @ k # [k + 1..max_retries]) st = (Inr None, st')"
      "cache_file st' = cache_file st"
    by blast
  have first: "snd (polite_fetch N url max_retries timeout st) = st" if "k = 1"
    using that assms(4,5) split by (simp add: polite_fetch_def Let_def)
  from st' split first show ?thesis
    by (simp add: polite_fetch_def Let_def)
qed

theorem polite_fetch_304_cache_untouched_witness:
  "fst (polite_fetch (answering (\<lambda>n. if n < 3 then 503 else 304))
          (str ''https://investinglive.com/feed'') 5 15 example_state) = Inr None \<and>
   cache_file (snd (polite_fetch (answering (\<lambda>n. if n < 3 then 503 else 304))
          (str ''https://investinglive.com/feed'') 5 15 example_state)) = cache_file example_state \<and>
   snd (polite_fetch (answering (\<lambda>n. 304))
          (str ''https://investinglive.com/feed'') 5 15 example_state) = example_state"
proof -
  let ?url = "str ''https://investinglive.com/feed''"
  let ?r = "\<lparr>status_code = 304, hdr_etag = Some (str ''v2''), hdr_last_modified = None,
             body = str ''<rss/>''\<rparr>"
  have third: "transport (answering (\<lambda>n. if n < 3 then 503 else 304))
      (request_for ?url 15 (load_cache example_state)) 3 = Response ?r"
    by (simp add: answering_def)
  have earlier: "\<forall>j \<in> {1..<3}.
      transport (answering (\<lambda>n. if n < 3 then 503 else 304))
        (request_for ?url 15 (load_cache example_state)) j \<noteq> RaiseOther \<and>
      (\<forall>r'. transport (answering (\<lambda>n. if n < 3 then 503 else 304))
          (request_for ?url 15 (load_cache example_state)) j = Response r'
        \<longrightarrow> status_code r' \<noteq> 200 \<and> status_code r' \<noteq> 304)"
    by (auto simp: answering_def)
  have first: "transport (answering (\<lambda>n. 304))
      (request_for ?url 15 (load_cache example_state)) 1 = Response ?r"
    by (simp add: answering_def)
  have "(1::int) \<le> 3" and "(3::int) \<le> 5" and "status_code ?r = 304"
    by simp_all
  from polite_fetch_304_cache_untouched [OF this(1,2) earlier third this(3)]
    polite_fetch_304_cache_untouched [where k = 1 and max_retries = 5, OF _ _ _ first]
  show ?thesis by simp
qed

text \<open>
  C1. A network that answers every one of the five attempts with 503 never gives a
  200 or a 304, and \<open>polite_fetch\<close> returns \<open>None\<close>, the value of a 304, after five
  sleeps; a network that answers every attempt with 404 makes it raise.
\<close>

theorem polite_fetch_503_exhausted_returns_none:
  "polite_fetch (answering (\<lambda>n. 503)) (str ''https://investinglive.com/feed'') 5 15 example_state
     = (Inr None, example_state\<lparr>slept := [11 / 10, 11 / 5, 43 / 10, 42 / 5, 33 / 2]\<rparr>) \<and>
   fst (polite_fetch (answering (\<lambda>n. 404)) (str ''https://investinglive.com/feed'') 5 15 example_state)
     = Inl HTTPError"
  by (simp add: polite_fetch_def answering_def upto.simps sleep_def is_success_def example_state_def)

section \<open>The filter\<close>

lemma length_slice_to: "0 < n \<Longrightarrow> int (length (slice_to xs n)) \<le> n"
  by (simp add: slice_to_def)

lemma set_slice_to: "set (slice_to xs n) \<subseteq> set xs"
  by (simp add: slice_to_def set_take_subset)

text \<open>What the list comprehension keeps: dated items that parse to the cutoff or later.\<close>

lemma keep_recent_kept:
  "keep_recent L cutoff items = Inr r \<Longrightarrow> it \<in> set r \<Longrightarrow>
     it \<in> set items \<and> truthy (published_ny it) \<and>
     (\<exists>d. dtparse_parse L (the (published_ny it)) = Some d \<and> cutoff \<le> wall d)"
proof (induction items arbitrary: r)
  case Nil
  then show ?case by simp
next
  case (Cons x xs)
  show ?case
  proof (cases "truthy (published_ny x)")
    case False
    with Cons.prems Cons.IH [of r] show ?thesis by simp
  next
    case True
    with Cons.prems obtain d r' where d: "dtparse_parse L (the (published_ny x)) = Some d"
      and r': "keep_recent L cutoff xs = Inr r'"
      and r: "r = (if cutoff \<le> wall d then x # r' else r')"
      by (auto split: option.splits sum.splits)
    show ?thesis
    proof (cases "it \<in> set r'")
      case True
      with Cons.IH [OF r'] show ?thesis by simp
    next
      case False
      with r Cons.prems(2) have "it = x" "cutoff \<le> wall d"
        by (auto split: if_splits)
      with d \<open>truthy (published_ny x)\<close> show ?thesis by simp
    qed
  qed
qed

text \<open>
  C2, as amended. For every list of items, every window and every limit of at least
  1, a result of \<open>filter_items\<close> has at most \<open>limit\<close> items.
\<close>

theorem filter_items_length_le_limit:
  assumes "filter_items L now items hours (Some limit) = Inr r" and "1 \<le> limit"
  shows "int (length r) \<le> limit"
proof -
  from assms obtain items' where "r = slice_to items' limit"
    by (auto simp: filter_items_def split: sum.splits if_splits)
  with assms(2) length_slice_to [of limit items'] show ?thesis by simp
qed

theorem filter_items_length_le_limit_witness:
  "filter_items example_libs example_now example_items (Some 100) (Some 1) = Inr [hd example_items] \<and>
   int (length [hd example_items]) \<le> 1"
proof -
  have run: "filter_items example_libs example_now example_items (Some 100) (Some 1)
      = Inr [hd example_items]"
    by code_simp
  from filter_items_length_le_limit [OF run] run show ?thesis by simp
qed

text \<open>
  C2, as stated, fails at the limit 0, which \<open>if limit:\<close> takes as no limit: three
  items are returned.
\<close>

theorem filter_items_limit_zero_counterexample:
  "filter_items example_libs example_now example_items None (Some 0) = Inr example_items \<and>
   \<not> int (length example_items) \<le> 0"
  by (simp add: filter_items_def example_items_def)

text \<open>
  C6, as amended. For every list of items and every window \<open>hours\<close> other than 0,
  every item \<open>filter_items\<close> returns has a \<open>published_ny\<close> that is present (and not
  empty), and the wall-clock reading parsed from it, taken as New York time, is at or
  after the New York time now less \<open>hours\<close> hours; so no item without \<open>published_ny\<close>
  is returned. (A window of 0 is taken as no window by \<open>if hours:\<close>.)
\<close>

theorem filter_items_window:
  assumes "filter_items L now items (Some h) limit = Inr r" and "h \<noteq> 0" and "it \<in> set r"
  shows "it \<in> set items \<and>
         (\<exists>s d. published_ny it = Some s \<and> s \<noteq> [] \<and> dtparse_parse L s = Some d \<and>
                now - h * 3600000000 \<le> wall (d\<lparr>tz := Some NY_TZ\<rparr>))"
proof -
  from assms(1,2) obtain cutoff kept where cutoff: "cutoff_of now h = Inr cutoff"
    and kept: "keep_recent L cutoff items = Inr kept"
    and r: "r = (if truthy_int limit then slice_to kept (the limit) else kept)"
    by (auto simp: filter_items_def split: sum.splits)
  from cutoff have "cutoff = now - h * 3600000000"
    by (auto simp: cutoff_of_def timedelta_hours_def Let_def split: option.splits if_splits)
  moreover from r assms(3) set_slice_to [of kept "the limit"] have "it \<in> set kept"
    by (auto split: if_splits)
  moreover note keep_recent_kept [OF kept \<open>it \<in> set kept\<close>]
  ultimately show ?thesis
    by (cases "published_ny it") auto
qed

theorem filter_items_window_witness:
  "filter_items example_libs example_now example_items (Some 24) None = Inr [hd example_items] \<and>
   (\<exists>s d. published_ny (hd example_items) = Some s \<and> s \<noteq> [] \<and>
          dtparse_parse example_libs s = Some d \<and>
          example_now - 24 * 3600000000 \<le> wall (d\<lparr>tz := Some NY_TZ\<rparr>))"
proof -
  have run: "filter_items example_libs example_now example_items (Some 24) None
      = Inr [hd example_items]"
    by code_simp
  have "(24 :: int) \<noteq> 0" and "hd example_items \<in> set [hd example_items]"
    by simp_all
  from filter_items_window [OF run this] run show ?thesis
    by blast
qed

text \<open>
  C6, as stated, fails at the window 0, which \<open>if hours:\<close> takes as no window: all
  three items are returned, the one without \<open>published_ny\<close> among them.
\<close>

theorem filter_items_window_zero_counterexample:
  "filter_items example_libs example_now example_items (Some 0) None = Inr example_items \<and>
   example_items ! 2 \<in> set example_items \<and>
   published_ny (example_items ! 2) = None"
  by (simp add: filter_items_def example_items_def)

section \<open>The digest\<close>

text \<open>
  C10. When \<open>polite_fetch\<close> returns \<open>None\<close>, \<open>get_digest\<close> returns the empty list. It
  returns the empty list as well when the fetch gives a body that parses to no entry
  (and the window, if one is given, can be computed), so the caller cannot tell the two
  apart.
\<close>

theorem get_digest_no_change_empty:
  "(polite_fetch N url 5 15 st = (Inr None, st')
      \<longrightarrow> get_digest N L now url hours limit st = (Inr [], st')) \<and>
   (polite_fetch N url 5 15 st = (Inr (Some xml), st') \<and> feedparser_parse L xml = [] \<and>
    (truthy_int hours \<longrightarrow> cutoff_of now (the hours) \<noteq> Inl OverflowError)
      \<longrightarrow> get_digest N L now url hours limit st = (Inr [], st'))"
proof -
  have "filter_items L now [] hours (Some limit) = Inr []"
    if "truthy_int hours \<longrightarrow> cutoff_of now (the hours) \<noteq> Inl OverflowError"
  proof (cases "truthy_int hours")
    case True
    with that obtain c where "cutoff_of now (the hours) = Inr c"
      by (cases "cutoff_of now (the hours)") (auto simp: cutoff_of_def split: option.splits if_splits)
    with True show ?thesis
      by (simp add: filter_items_def slice_to_def)
  next
    case False
    then show ?thesis
      by (simp add: filter_items_def slice_to_def)
  qed
  then show ?thesis
    by (simp add: get_digest_def parse_feed_def sort_reverse_def)
qed

theorem get_digest_no_change_empty_witness:
  "polite_fetch (answering (\<lambda>n. 304)) (str ''https://investinglive.com/feed'') 5 15 example_state
     = (Inr None, example_state) \<and>
   get_digest (answering (\<lambda>n. 304)) example_libs example_now
       (str ''https://investinglive.com/feed'') (Some 24) 40 example_state
     = (Inr [], example_state) \<and>
   fst (get_digest (answering (\<lambda>n. 200)) (example_libs\<lparr>feedparser_parse := (\<lambda>xml. [])\<rparr>)
       example_now (str ''https://investinglive.com/feed'') (Some 24) 40 example_state)
     = Inr []"
proof -
  let ?url = "str ''https://investinglive.com/feed''"
  let ?saved = "example_state\<lparr>cache_file := Some \<lparr>etag = Some (str ''v2''), last_modified = None,
      fetched_at = Some (str ''2024-03-01T17:00:00+00:00'')\<rparr>\<rparr>"
  have unchanged: "polite_fetch (answering (\<lambda>n. 304)) ?url 5 15 example_state
      = (Inr None, example_state)"
    by (simp add: polite_fetch_def answering_def upto.simps)
  have fetched: "polite_fetch (answering (\<lambda>n. 200)) ?url 5 15 example_state
      = (Inr (Some (str ''<rss/>'')), ?saved)"
    by (simp add: polite_fetch_def answering_def upto.simps save_cache_def example_state_def
        load_cache_def py_or_def str_def)
  have window: "cutoff_of example_now (the (Some 24)) \<noteq> Inl OverflowError"
    by (simp add: cutoff_of_def timedelta_hours_def example_now_def MAX_WALL_def)
  from get_digest_no_change_empty [where N = "answering (\<lambda>n. 304)" and url = ?url
         and st = example_state and st' = example_state and L = example_libs
         and now = example_now and hours = "Some 24" and limit = 40] unchanged
    get_digest_no_change_empty [where N = "answering (\<lambda>n. 200)" and url = ?url
         and st = example_state and st' = ?saved and xml = "str ''<rss/>''"
         and L = "example_libs\<lparr>feedparser_parse := (\<lambda>xml. [])\<rparr>"
         and now = example_now and hours = "Some 24" and limit = 40] fetched window
  show ?thesis by simp
qed

section \<open>Summaries\<close>

lemma length_rstrip: "length (rstrip U s) \<le> length s"
  using length_dropWhile_le [of "is_space U" "rev s"] by (simp add: rstrip_def)

text \<open>
  C5. The summary \<open>_html_to_text\<close> returns has at most \<open>MAX_SUMMARY_CHARS + 1\<close>
  characters. When the text was cut (the cleaned text is longer than
  \<open>MAX_SUMMARY_CHARS\<close>), the summary ends with the ellipsis; when it was not, the summary
  is the cleaned text.
\<close>

theorem html_to_text_length:
  "length (html_to_text L html) \<le> MAX_SUMMARY_CHARS + 1 \<and>
   (html \<noteq> [] \<and> MAX_SUMMARY_CHARS < length (clean_text L html)
      \<longrightarrow> html_to_text L html \<noteq> [] \<and> last (html_to_text L html) = ellipsis) \<and>
   (html \<noteq> [] \<and> length (clean_text L html) \<le> MAX_SUMMARY_CHARS
      \<longrightarrow> html_to_text L html = clean_text L html)"
proof -
  have "length (rstrip (uni L) (take MAX_SUMMARY_CHARS (clean_text L html))) \<le> MAX_SUMMARY_CHARS"
    using length_rstrip [of "uni L" "take MAX_SUMMARY_CHARS (clean_text L html)"] by simp
  then show ?thesis
    by (simp add: html_to_text_def cut_summary_def)
qed

theorem html_to_text_length_witness:
  "replicate 219 97 @ [32] @ replicate 50 98 \<noteq> ([] :: pystr) \<and>
   MAX_SUMMARY_CHARS < length (clean_text example_libs (replicate 219 97 @ [32] @ replicate 50 98)) \<and>
   html_to_text example_libs (replicate 219 97 @ [32] @ replicate 50 98)
     = replicate 219 97 @ [ellipsis] \<and>
   last (html_to_text example_libs (replicate 219 97 @ [32] @ replicate 50 98)) = ellipsis \<and>
   length (html_to_text example_libs (replicate 219 97 @ [32] @ replicate 50 98)) \<le> 221"
proof -
  let ?html = "replicate 219 97 @ [32] @ replicate 50 98 :: pystr"
  have run: "html_to_text example_libs ?html = replicate 219 97 @ [ellipsis]"
    by code_simp
  have long: "MAX_SUMMARY_CHARS < length (clean_text example_libs ?html)"
    by code_simp
  from html_to_text_length [of example_libs ?html] run long show ?thesis
    by (simp add: MAX_SUMMARY_CHARS_def)
qed

section \<open>Tags\<close>

lemma ordered_loop_distinct:
  "distinct (ordered @ ts) \<Longrightarrow> ordered_loop (set ordered) ordered ts = ordered @ ts"
proof (induction ts arbitrary: ordered)
  case Nil
  then show ?case by simp
next
  case (Cons t ts)
  then have "distinct ((ordered @ [t]) @ ts)" and "t \<notin> set ordered"
    by auto
  with Cons.IH [of "ordered @ [t]"] show ?case
    by simp
qed

lemma distinct_ordered_loop:
  "distinct ordered \<Longrightarrow> set ordered \<subseteq> seen \<Longrightarrow> distinct (ordered_loop seen ordered ts)"
proof (induction ts arbitrary: seen ordered)
  case Nil
  then show ?case by simp
next
  case (Cons t ts)
  show ?case
  proof (cases "t \<in> seen")
    case True
    with Cons show ?thesis by simp
  next
    case False
    with Cons.prems have "distinct (ordered @ [t])" and "set (ordered @ [t]) \<subseteq> insert t seen"
      by auto
    with Cons.IH [of "ordered @ [t]" "insert t seen"] False show ?thesis
      by simp
  qed
qed

lemma set_ordered_loop:
  "set (ordered_loop seen ordered ts) \<subseteq> set ordered \<union> set ts"
proof (induction ts arbitrary: seen ordered)
  case Nil
  then show ?case by simp
next
  case (Cons t ts)
  from Cons.IH [of "insert t seen" "ordered @ [t]"] Cons.IH [of seen ordered]
  show ?case by auto
qed

lemma distinct_table_tags: "distinct (map snd KEYWORD_TAGS)"
  by code_simp

lemma distinct_matched_tags: "distinct (matched_tags U s)"
  using distinct_table_tags by (simp add: matched_tags_def distinct_map_filter)

lemma distinct_extract_tags: "distinct (extract_tags U txt)"
  by (simp add: extract_tags_def distinct_ordered_loop)

lemma extract_tags_in_table: "set (extract_tags U txt) \<subseteq> set (map snd KEYWORD_TAGS)"
proof -
  have "set (matched_tags U (lower U txt)) \<subseteq> set (map snd KEYWORD_TAGS)"
    by (auto simp: matched_tags_def)
  with set_ordered_loop [of "{}" "[]" "matched_tags U (lower U txt)"] show ?thesis
    by (auto simp: extract_tags_def)
qed

text \<open>
  C7. \<open>_extract_tags\<close> returns the tags of the patterns that match the lowercased
  text, in the order of the table, each once; the text
  \<open>Gold rallies as Fed signals cut\<close> gives \<open>#XAU\<close>, then \<open>#Fed\<close>.
\<close>

theorem extract_tags_table_order:
  "extract_tags U txt
     = map snd (filter (\<lambda>(pat, tag). re_search U pat (lower U txt)) KEYWORD_TAGS) \<and>
   distinct (extract_tags U txt) \<and>
   extract_tags U (str ''Gold rallies as Fed signals cut'') = [str ''#XAU'', str ''#Fed'']"
proof -
  have "extract_tags U txt = matched_tags U (lower U txt)"
    using ordered_loop_distinct [of "[]" "matched_tags U (lower U txt)"]
    by (simp add: extract_tags_def distinct_matched_tags)
  then have table: "extract_tags U txt
      = map snd (filter (\<lambda>(pat, tag). re_search U pat (lower U txt)) KEYWORD_TAGS)"
    by (simp add: matched_tags_def)
  have example: "extract_tags U (str ''Gold rallies as Fed signals cut'')
      = [str ''#XAU'', str ''#Fed'']"
    by code_simp
  show ?thesis
    by (rule conjI [OF table conjI [OF distinct_extract_tags example]])
qed

theorem extract_tags_table_order_witness:
  "extract_tags ascii_tables (str ''Yields jump; crude oil and the yen slide, gold flat'')
     = [str ''#XAU'', str ''#USDJPY'', str ''#OIL'', str ''#UST10Y''] \<and>
   map snd (filter (\<lambda>(pat, tag). re_search ascii_tables pat
       (lower ascii_tables (str ''Yields jump; crude oil and the yen slide, gold flat''))) KEYWORD_TAGS)
     = [str ''#XAU'', str ''#USDJPY'', str ''#OIL'', str ''#UST10Y'']"
proof -
  have "extract_tags ascii_tables (str ''Yields jump; crude oil and the yen slide, gold flat'')
      = [str ''#XAU'', str ''#USDJPY'', str ''#OIL'', str ''#UST10Y'']"
    by code_simp
  with extract_tags_table_order [of ascii_tables
      "str ''Yields jump; crude oil and the yen slide, gold flat''"]
  show ?thesis by simp
qed

section \<open>Entries\<close>

lemma upper_hash: "upper U (35 # s) = 35 # upper U s"
  by (simp add: upper_def upper_cp_def)

lemma section_tag_from_url_eq:
  "section_tag_from_url L lnk =
     (case urlparse_path L lnk of
        None \<Rightarrow> None
      | Some p \<Rightarrow>
          if first_segment (strip_chars [47] p) = [] then None
          else Some (35 # upper (uni L) (replace_char 45 95 (first_segment (strip_chars [47] p)))))"
  by (simp add: section_tag_from_url_def Let_def upper_hash split: option.splits)

lemma section_tag_truthy: "section_tag_from_url L lnk = Some sec \<Longrightarrow> truthy (Some sec)"
  by (auto simp: section_tag_from_url_eq split: option.splits if_splits)

text \<open>The fields of the item made from an entry.\<close>

lemma parse_entry_fields:
  assumes "parse_entry L e = Inr it"
  shows "title it = strip (uni L) (or_empty (get_title e))"
    and "summary it = html_to_text L (or_empty (py_or (get_summary e) (Some [])))"
    and "link it = strip (uni L) (or_empty (get_link e))"
    and "tags it =
      (let kw = extract_tags (uni L) (title it @ [32] @ summary it)
       in case section_tag_from_url L (link it) of
            None \<Rightarrow> kw
          | Some sec \<Rightarrow> if sec \<in> set kw then kw else sec # kw)"
proof -
  from assms show t: "title it = strip (uni L) (or_empty (get_title e))"
    by (auto simp: parse_entry_def Let_def split: option.splits)
  from assms show s: "summary it = html_to_text L (or_empty (py_or (get_summary e) (Some [])))"
    by (auto simp: parse_entry_def Let_def split: option.splits)
  from assms show l: "link it = strip (uni L) (or_empty (get_link e))"
    by (auto simp: parse_entry_def Let_def split: option.splits)
  from assms have "tags it =
      (let kw = extract_tags (uni L) (strip (uni L) (or_empty (get_title e)) @ [32] @
                  html_to_text L (or_empty (py_or (get_summary e) (Some []))));
           sec = section_tag_from_url L (strip (uni L) (or_empty (get_link e)))
       in if truthy sec \<and> the sec \<notin> set kw then the sec # kw else kw)"
    by (auto simp: parse_entry_def Let_def split: option.splits)
  then show "tags it =
      (let kw = extract_tags (uni L) (title it @ [32] @ summary it)
       in case section_tag_from_url L (link it) of
            None \<Rightarrow> kw
          | Some sec \<Rightarrow> if sec \<in> set kw then kw else sec # kw)"
    using section_tag_truthy [of L "link it"]
    by (auto simp: t s l Let_def split: option.splits)
qed

lemma parse_entry_tags_distinct: "parse_entry L e = Inr it \<Longrightarrow> distinct (tags it)"
  using distinct_extract_tags [of "uni L" "title it @ [32] @ summary it"]
  by (auto simp: parse_entry_fields(4) Let_def split: option.splits)

lemma parse_entries_all:
  "parse_entries L es = Inr items \<Longrightarrow> it \<in> set items \<Longrightarrow> \<exists>e \<in> set es. parse_entry L e = Inr it"
proof (induction es arbitrary: items)
  case Nil
  then show ?case by simp
next
  case (Cons e es)
  from Cons.prems(1) obtain x xs where x: "parse_entry L e = Inr x"
    and xs: "parse_entries L es = Inr xs" and items: "items = x # xs"
    by (auto split: sum.splits)
  with Cons.prems(2) Cons.IH [OF xs] show ?case
    by auto
qed

lemma set_sort_reverse: "set (sort_reverse items) = set items"
  by (simp add: sort_reverse_def)

lemma parse_feed_all:
  assumes "parse_feed L xml = Inr items" and "it \<in> set items"
  shows "\<exists>e \<in> set (feedparser_parse L xml). parse_entry L e = Inr it"
proof -
  from assms(1) obtain xs where xs: "parse_entries L (feedparser_parse L xml) = Inr xs"
    and "items = sort_reverse xs"
    by (auto simp: parse_feed_def split: sum.splits)
  with assms(2) have "it \<in> set xs"
    by (simp add: set_sort_reverse)
  with parse_entries_all [OF xs] show ?thesis
    by blast
qed

lemma parse_feed_example: "parse_feed example_libs (str ''<rss/>'') = Inr example_items"
  by code_simp

text \<open>
  C3. Every item \<open>parse_feed\<close> returns has a tag list without duplicates, the section
  tag at its front included.
\<close>

theorem parse_feed_tags_distinct:
  assumes "parse_feed L xml = Inr items" and "it \<in> set items"
  shows "distinct (tags it)"
proof -
  from parse_feed_all [OF assms] obtain e where "parse_entry L e = Inr it"
    by blast
  then show ?thesis
    by (rule parse_entry_tags_distinct)
qed

theorem parse_feed_tags_distinct_witness:
  "parse_feed example_libs (str ''<rss/>'') = Inr example_items \<and>
   example_items ! 1 \<in> set example_items \<and>
   tags (example_items ! 1) = [str ''#CENTRAL_BANK'', str ''#Fed'', str ''#CB''] \<and>
   distinct (tags (example_items ! 1))"
proof -
  have mem: "example_items ! 1 \<in> set example_items"
    by (simp add: example_items_def)
  have "tags (example_items ! 1) = [str ''#CENTRAL_BANK'', str ''#Fed'', str ''#CB'']"
    by (simp add: example_items_def)
  with parse_feed_tags_distinct [OF parse_feed_example mem] parse_feed_example mem
  show ?thesis by simp
qed

text \<open>
  C8. The section tag of a link is \<open>#\<close> and the first segment of the path of the link,
  with \<open>-\<close> turned into \<open>_\<close>, in upper case; there is none when that segment is empty
  (or the link cannot be parsed). The tags of an item are its keyword tags, with the
  section tag put in front when there is one and it is not among them. A link whose
  first path segment is \<open>central-bank\<close> puts \<open>#CENTRAL_BANK\<close> before the keyword tags.
\<close>

theorem section_tag_inserted_first:
  assumes "parse_entry L e = Inr it"
  shows "(\<forall>lnk. section_tag_from_url L lnk =
            (case urlparse_path L lnk of
               None \<Rightarrow> None
             | Some p \<Rightarrow>
                 if first_segment (strip_chars [47] p) = [] then None
                 else Some (35 # upper (uni L)
                        (replace_char 45 95 (first_segment (strip_chars [47] p)))))) \<and>
         tags it =
           (case section_tag_from_url L (link it) of
              None \<Rightarrow> extract_tags (uni L) (title it @ [32] @ summary it)
            | Some sec \<Rightarrow>
                if sec \<in> set (extract_tags (uni L) (title it @ [32] @ summary it))
                then extract_tags (uni L) (title it @ [32] @ summary it)
                else sec # extract_tags (uni L) (title it @ [32] @ summary it)) \<and>
         (\<forall>p. urlparse_path L (link it) = Some p \<and>
               first_segment (strip_chars [47] p) = str ''central-bank''
            \<longrightarrow> tags it = str ''#CENTRAL_BANK'' # extract_tags (uni L) (title it @ [32] @ summary it))"
proof -
  let ?kw = "extract_tags (uni L) (title it @ [32] @ summary it)"
  have tag_eq: "tags it =
      (case section_tag_from_url L (link it) of
         None \<Rightarrow> ?kw
       | Some sec \<Rightarrow> if sec \<in> set ?kw then ?kw else sec # ?kw)"
    using parse_entry_fields(4) [OF assms] unfolding Let_def .
  have central: "tags it = str ''#CENTRAL_BANK'' # ?kw"
    if p: "urlparse_path L (link it) = Some p"
      and seg: "first_segment (strip_chars [47] p) = str ''central-bank''" for p
  proof -
    have "35 # upper (uni L) (replace_char 45 95 (str ''central-bank'')) = str ''#CENTRAL_BANK''"
      by code_simp
    moreover have "str ''central-bank'' \<noteq> []"
      by (simp add: str_def)
    ultimately have sec: "section_tag_from_url L (link it) = Some (str ''#CENTRAL_BANK'')"
      using p seg by (simp add: section_tag_from_url_eq)
    have "str ''#CENTRAL_BANK'' \<notin> set (map snd KEYWORD_TAGS)"
      by code_simp
    with extract_tags_in_table [of "uni L" "title it @ [32] @ summary it"]
    have "str ''#CENTRAL_BANK'' \<notin> set ?kw"
      by blast
    with tag_eq sec show ?thesis
      by simp
  qed
  from section_tag_from_url_eq [of L] tag_eq central show ?thesis
    by blast
qed

theorem section_tag_inserted_first_witness:
  "parse_entry example_libs (example_entries ! 1) = Inr (example_items ! 1) \<and>
   urlparse_path example_libs (link (example_items ! 1)) = Some (str ''/central-bank/ecb-preview'') \<and>
   first_segment (strip_chars [47] (str ''/central-bank/ecb-preview'')) = str ''central-bank'' \<and>
   extract_tags (uni example_libs) (title (example_items ! 1) @ [32] @ summary (example_items ! 1))
     = [str ''#Fed'', str ''#CB''] \<and>
   tags (example_items ! 1) = [str ''#CENTRAL_BANK'', str ''#Fed'', str ''#CB'']"
proof -
  have run: "parse_entry example_libs (example_entries ! 1) = Inr (example_items ! 1)"
    by code_simp
  have path: "urlparse_path example_libs (link (example_items ! 1))
      = Some (str ''/central-bank/ecb-preview'')"
    by code_simp
  have seg: "first_segment (strip_chars [47] (str ''/central-bank/ecb-preview''))
      = str ''central-bank''"
    by code_simp
  have kw: "extract_tags (uni example_libs)
      (title (example_items ! 1) @ [32] @ summary (example_items ! 1)) = [str ''#Fed'', str ''#CB'']"
    by code_simp
  from section_tag_inserted_first [OF run] path seg
  have "tags (example_items ! 1) = str ''#CENTRAL_BANK'' #
      extract_tags (uni example_libs) (title (example_items ! 1) @ [32] @ summary (example_items ! 1))"
    by blast
  with run path seg kw show ?thesis
    by simp
qed

section \<open>The order of the feed\<close>

lemma sort_reverse_sorted: "sorted_wrt (\<lambda>a b. recency_key b \<le> recency_key a) (sort_reverse items)"
proof -
  have "sorted (map recency_key (sort_key recency_key (rev items)))"
    by (rule sorted_sort_key)
  then have "sorted_wrt (\<lambda>a b. recency_key a \<le> recency_key b) (sort_key recency_key (rev items))"
    by (simp add: sorted_map)
  then show ?thesis
    by (simp add: sort_reverse_def sorted_wrt_rev)
qed

text \<open>
  C4. The items \<open>parse_feed\<close> returns are in non-increasing order of the key
  \<open>published_ny or ""\<close>, under the order of strings: an item without \<open>published_ny\<close> has
  the empty key and every item after it has the empty key too.
\<close>

theorem parse_feed_sorted:
  assumes "parse_feed L xml = Inr items"
  shows "sorted_wrt (\<lambda>a b. recency_key b \<le> recency_key a) items \<and>
         (\<forall>x. recency_key x = (case published_ny x of None \<Rightarrow> [] | Some s \<Rightarrow> s)) \<and>
         (\<forall>i j. i < j \<and> j < length items \<and> published_ny (items ! i) = None
            \<longrightarrow> recency_key (items ! j) = [])"
proof -
  from assms obtain xs where "items = sort_reverse xs"
    by (auto simp: parse_feed_def split: sum.splits)
  then have sorted: "sorted_wrt (\<lambda>a b. recency_key b \<le> recency_key a) items"
    by (simp add: sort_reverse_sorted)
  have key: "recency_key x = (case published_ny x of None \<Rightarrow> [] | Some s \<Rightarrow> s)" for x
    by (cases "published_ny x") (simp_all add: recency_key_def py_or_def)
  have last: "recency_key (items ! j) = []"
    if "i < j" "j < length items" "published_ny (items ! i) = None" for i j
  proof -
    from sorted that(1,2) have "recency_key (items ! j) \<le> recency_key (items ! i)"
      by (simp add: sorted_wrt_iff_nth_less)
    with that(3) show ?thesis
      by (simp add: key)
  qed
  from sorted key last show ?thesis
    by blast
qed

theorem parse_feed_sorted_witness:
  "parse_feed example_libs (str ''<rss/>'') = Inr example_items \<and>
   map recency_key example_items = [str ''2024-03-01 09:30'', str ''2024-02-27 08:00'', []] \<and>
   sorted_wrt (\<lambda>a b. recency_key b \<le> recency_key a) example_items"
proof -
  have keys: "map recency_key example_items
      = [str ''2024-03-01 09:30'', str ''2024-02-27 08:00'', []]"
    by code_simp
  from parse_feed_sorted [OF parse_feed_example]
  have "sorted_wrt (\<lambda>a b. recency_key b \<le> recency_key a) example_items"
    by blast
  with parse_feed_example keys show ?thesis
    by blast
qed

end
